theory Spec2Isabelle
  imports Complex_Main
begin

section \<open>The operating system, as the supervisor of timeout.cpp sees it\<close>

text \<open>
  The POSIX half of \<^verbatim>\<open>src/timeout/timeout.cpp\<close> is modelled (the branch taken when
  \<^verbatim>\<open>_WIN32\<close> is not defined). The program is followed in the parent process; what the
  forked child does is a parameter, the \<open>command\<close>.

  A command is described by the moment it ends on its own and by its reaction to each
  signal number: after how many milliseconds it ends once the signal is delivered, or
  \<open>None\<close> when the signal is ignored, blocked or not a signal at all. Times are
  milliseconds of the steady clock, counted from the moment of the fork.
\<close>

datatype wstatus = Exited int | Signaled int

record command =
  exits_at :: "(nat \<times> wstatus) option"
  reacts :: "int \<Rightarrow> (nat \<times> wstatus) option"

datatype errno = ENOENT | EACCES | ENOEXEC | ENOMEM

datatype exec_result = Exec_ok command | Exec_fails errno

text \<open>
  The environment of one run: what \<^verbatim>\<open>fork()\<close> returns in the parent (\<open>-1\<close> or the
  pid of the child, a positive number), what \<^verbatim>\<open>execvp\<close> does in the child, and whether the disposition
  of \<^verbatim>\<open>SIGCHLD\<close> was inherited as ignored (then an ended child is reaped by the kernel
  and \<^verbatim>\<open>waitpid\<close> fails with \<^verbatim>\<open>ECHILD\<close>).
\<close>

record os =
  fork_result :: int
  execvp :: exec_result
  sigchld_ignored :: bool

text \<open>The lines the program writes to the error stream.\<close>

datatype line =
    Fork_failed                \<comment> \<open>\<^verbatim>\<open>Error: failed to fork process\<close>\<close>
  | Exec_failed                \<comment> \<open>\<^verbatim>\<open>Error: failed to execute command\<close>, written by the child\<close>
  | Sending_signal int int     \<comment> \<open>\<^verbatim>\<open>Sending signal <signal> to process <pid>\<close>\<close>
  | Sending_SIGKILL int        \<comment> \<open>\<^verbatim>\<open>Sending SIGKILL to process <pid>\<close>\<close>

text \<open>
  The mutable part: the steady clock, the calls of \<^verbatim>\<open>kill\<close> made so far (time and
  signal number, oldest first), whether the child has been waited for, and the error
  stream.
\<close>

record world =
  clock :: nat
  sent :: "(nat \<times> int) list"
  reaped :: bool
  stderr :: "line list"

definition world0 :: world where
  "world0 = \<lparr>clock = 0, sent = [], reaped = False, stderr = []\<rparr>"

text \<open>
  The diagnostics of \<open>verbose\<close> are the two lines that announce a signal, and
  \<open>diagnostics\<close> counts them on the error stream.
\<close>

definition is_diagnostic :: "line \<Rightarrow> bool" where
  "is_diagnostic l = (case l of Sending_signal s p \<Rightarrow> True | Sending_SIGKILL p \<Rightarrow> True | _ \<Rightarrow> False)"

definition diagnostics :: "world \<Rightarrow> nat" where
  "diagnostics w = length (filter is_diagnostic (stderr w))"

text \<open>
  The child that results from the fork: the command itself when \<^verbatim>\<open>execvp\<close> succeeds;
  otherwise the child branch of \<open>start_process\<close>, which writes its message and calls
  \<^verbatim>\<open>exit(127)\<close> whatever the error was. The child needs a moment to get there: it
  ends 1 ms after the fork, so the first poll of the parent, right after the fork, still
  finds it running.
\<close>

definition child_of :: "os \<Rightarrow> command" where
  "child_of env =
     (case execvp env of
        Exec_ok c \<Rightarrow> c
      | Exec_fails e \<Rightarrow> \<lparr>exits_at = Some (1, Exited 127), reacts = (\<lambda>s. None)\<rparr>)"

text \<open>The moments at which the child would end, one for each cause, in order of cause.\<close>

fun signal_deaths :: "command \<Rightarrow> (nat \<times> int) list \<Rightarrow> (nat \<times> wstatus) list" where
  "signal_deaths c [] = []"
| "signal_deaths c ((t, s) # ks) =
     (case reacts c s of
        None \<Rightarrow> signal_deaths c ks
      | Some (d, st) \<Rightarrow> (t + d, st) # signal_deaths c ks)"

definition deaths :: "command \<Rightarrow> (nat \<times> int) list \<Rightarrow> (nat \<times> wstatus) list" where
  "deaths c ks = (case exits_at c of None \<Rightarrow> [] | Some d \<Rightarrow> [d]) @ signal_deaths c ks"

text \<open>The earliest of them is the one that happens.\<close>

fun earliest :: "(nat \<times> wstatus) list \<Rightarrow> (nat \<times> wstatus) option" where
  "earliest [] = None"
| "earliest ((t, st) # ds) =
     (case earliest ds of
        None \<Rightarrow> Some (t, st)
      | Some (t', st') \<Rightarrow> if t' < t then Some (t', st') else Some (t, st))"

definition status_at :: "command \<Rightarrow> (nat \<times> int) list \<Rightarrow> nat \<Rightarrow> wstatus option" where
  "status_at c ks now =
     (case earliest (deaths c ks) of
        None \<Rightarrow> None
      | Some (t, st) \<Rightarrow> if t \<le> now then Some st else None)"

text \<open>
  \<^verbatim>\<open>waitpid(pid, &status, WNOHANG)\<close>: the pid and the status when the child has ended
  and is still to be waited for, \<open>0\<close> while it runs, \<open>-1\<close> when there is no such child
  (any more).
\<close>

definition waitpid :: "os \<Rightarrow> int \<Rightarrow> world \<Rightarrow> (int \<times> wstatus option) \<times> world" where
  "waitpid env pid w =
     (if reaped w \<or> pid \<noteq> fork_result env then ((-1, None), w)
      else case status_at (child_of env) (sent w) (clock w) of
             None \<Rightarrow> ((0, None), w)
           | Some st \<Rightarrow>
               if sigchld_ignored env then ((-1, None), w\<lparr>reaped := True\<rparr>)
               else ((pid, Some st), w\<lparr>reaped := True\<rparr>))"

text \<open>\<^verbatim>\<open>kill(pid, sig)\<close>: the call is recorded with its time; its result is not looked at.\<close>

definition kill :: "int \<Rightarrow> int \<Rightarrow> world \<Rightarrow> world" where
  "kill pid sig w = w\<lparr>sent := sent w @ [(clock w, sig)]\<rparr>"

text \<open>
  \<^verbatim>\<open>std::this_thread::sleep_for\<close>: the clock advances by the time asked for. Every other
  step takes no time.
\<close>

definition sleep_for :: "nat \<Rightarrow> world \<Rightarrow> world" where
  "sleep_for ms w = w\<lparr>clock := clock w + ms\<rparr>"

definition cerr :: "line \<Rightarrow> world \<Rightarrow> world" where
  "cerr l w = w\<lparr>stderr := stderr w @ [l]\<rparr>"

section \<open>The class Timeout\<close>

record timeout =
  duration_seconds :: int
  kill_after_seconds :: int
  signal_name :: string
  preserve_status :: bool
  verbose :: bool
  command_args :: "string list"
  child_pid :: int

text \<open>The constructor: every number \<open>0\<close>, every flag off, no child.\<close>

definition Timeout :: timeout where
  "Timeout = \<lparr>duration_seconds = 0, kill_after_seconds = 0, signal_name = [],
     preserve_status = False, verbose = False, command_args = [], child_pid = -1\<rparr>"

subsection \<open>parse_signal\<close>

text \<open>
  The signal numbers of \<^verbatim>\<open><csignal>\<close> are those of Linux on x86 and ARM. The theorems
  about \<open>parse_signal\<close> name the constants and do not depend on the numbers.
\<close>

definition SIGHUP :: int where "SIGHUP = 1"
definition SIGINT :: int where "SIGINT = 2"
definition SIGKILL :: int where "SIGKILL = 9"
definition SIGUSR1 :: int where "SIGUSR1 = 10"
definition SIGUSR2 :: int where "SIGUSR2 = 12"
definition SIGTERM :: int where "SIGTERM = 15"

definition INT_MAX :: int where "INT_MAX = 2147483647"
definition INT_MIN :: int where "INT_MIN = - 2147483648"

definition isspace :: "char \<Rightarrow> bool" where
  "isspace c = (c = CHR '' '' \<or> (9::nat) \<le> of_char c \<and> of_char c \<le> (13::nat))"

definition isdigit :: "char \<Rightarrow> bool" where
  "isdigit c = ((48::nat) \<le> of_char c \<and> of_char c \<le> (57::nat))"

definition digit_val :: "char \<Rightarrow> int" where
  "digit_val c = int (of_char c) - 48"

definition decimal :: "string \<Rightarrow> int" where
  "decimal ds = foldl (\<lambda>a c. 10 * a + digit_val c) 0 ds"

datatype exn = Invalid_argument | Out_of_range

text \<open>
  \<^verbatim>\<open>std::stoi(str)\<close>, base 10: leading white space, an optional sign, then the longest
  run of digits; what follows the digits is ignored. It throws
  \<^verbatim>\<open>std::invalid_argument\<close> when there is no digit and \<^verbatim>\<open>std::out_of_range\<close> when the
  number is not an \<^verbatim>\<open>int\<close>.
\<close>

definition strip_sign :: "string \<Rightarrow> bool \<times> string" where
  "strip_sign s =
     (case s of
        [] \<Rightarrow> (False, [])
      | c # r \<Rightarrow> if c = CHR ''-'' then (True, r) else if c = CHR ''+'' then (False, r) else (False, s))"

definition stoi :: "string \<Rightarrow> exn + int" where
  "stoi str =
     (let (neg, s) = strip_sign (dropWhile isspace str);
          ds = takeWhile isdigit s
      in if ds = [] then Inl Invalid_argument
         else let v = (if neg then - decimal ds else decimal ds)
              in if v < INT_MIN \<or> INT_MAX < v then Inl Out_of_range else Inr v)"

definition parse_signal :: "string \<Rightarrow> int" where
  "parse_signal signal_str =
     (if signal_str = [] then SIGTERM
      else case stoi signal_str of
             Inr n \<Rightarrow> n
           | Inl e \<Rightarrow>
               if signal_str = ''TERM'' \<or> signal_str = ''SIGTERM'' then SIGTERM
               else if signal_str = ''INT'' \<or> signal_str = ''SIGINT'' then SIGINT
               else if signal_str = ''HUP'' \<or> signal_str = ''SIGHUP'' then SIGHUP
               else if signal_str = ''KILL'' \<or> signal_str = ''SIGKILL'' then SIGKILL
               else if signal_str = ''USR1'' \<or> signal_str = ''SIGUSR1'' then SIGUSR1
               else if signal_str = ''USR2'' \<or> signal_str = ''SIGUSR2'' then SIGUSR2
               else SIGTERM)"

subsection \<open>parse_duration\<close>

text \<open>
  \<^verbatim>\<open>double\<close> is IEEE 754 binary64. A finite value is written \<open>Finite m e\<close> and stands
  for \<open>m * 2 ^ e\<close>; \<open>valof\<close> is that number. The two zeros are not told apart: the
  program only compares and truncates.
\<close>

datatype double = Finite int int | PInf | NInf | NaN

definition valof :: "int \<Rightarrow> int \<Rightarrow> real" where
  "valof m e = (if 0 \<le> e then of_int (m * 2 ^ nat e) else of_int m / of_int (2 ^ nat (- e)))"

text \<open>
  Rounding the rational \<open>n / d\<close> (\<open>0 \<le> n\<close>, \<open>0 < d\<close>) to binary64, to nearest and
  ties to even: \<open>round_at\<close> rounds to a multiple of \<open>2 ^ e\<close> and says whether the result
  is inexact. The mantissa has 53 bits, or fewer below \<open>2 ^ - 1022\<close> where the exponent
  stays at \<open>- 1074\<close>. A result of \<open>2 ^ 1024\<close> or more overflows to an infinity.
\<close>

function bitlen :: "int \<Rightarrow> int" where
  "bitlen n = (if n \<le> 0 then 0 else 1 + bitlen (n div 2))"
  by pat_completeness auto
termination
  by (relation "measure nat") auto

declare bitlen.simps [simp del]

definition floor_log2 :: "int \<Rightarrow> int \<Rightarrow> int" where
  "floor_log2 n d =
     (let k = bitlen n - bitlen d
      in if (if 0 \<le> k then d * 2 ^ nat k \<le> n else d \<le> n * 2 ^ nat (- k)) then k else k - 1)"

definition round_at :: "int \<Rightarrow> int \<Rightarrow> int \<Rightarrow> int \<times> bool" where
  "round_at n d e =
     (let N = (if e < 0 then n * 2 ^ nat (- e) else n);
          D = (if e < 0 then d else d * 2 ^ nat e);
          q = N div D;
          r = N mod D;
          m = (if D < 2 * r \<or> (2 * r = D \<and> odd q) then q + 1 else q)
      in (m, r \<noteq> 0))"

definition round_binary64 :: "int \<Rightarrow> int \<Rightarrow> int \<times> int \<times> bool" where
  "round_binary64 n d =
     (let e = max (floor_log2 n d - 52) (- 1074);
          (m, inexact) = round_at n d e
      in (m, e, inexact))"

text \<open>
  A result is tiny when, rounded to 53 bits with no bound on the exponent, it is still
  below \<open>2 ^ - 1022\<close> (tininess is detected after rounding, as on x86-64).
\<close>

definition tiny :: "int \<Rightarrow> int \<Rightarrow> bool" where
  "tiny n d =
     (let e = floor_log2 n d - 52;
          (m, inexact) = round_at n d e
      in 0 < n \<and> (e < - 1075 \<or> (e = - 1075 \<and> m < 2 ^ 53)))"

definition overflows :: "int \<Rightarrow> int \<Rightarrow> bool" where
  "overflows m e = (971 < e \<or> (e = 971 \<and> 2 ^ 53 \<le> m))"

definition make_double :: "bool \<Rightarrow> int \<Rightarrow> int \<Rightarrow> double" where
  "make_double neg m e =
     (if overflows m e then (if neg then NInf else PInf)
      else Finite (if neg then - m else m) e)"

definition dmul :: "double \<Rightarrow> int \<Rightarrow> double" where
  "dmul v k =
     (case v of
        Finite m e \<Rightarrow>
          (let n = \<bar>m\<bar> * k * (if 0 \<le> e then 2 ^ nat e else 1);
               d = (if 0 \<le> e then 1 else 2 ^ nat (- e));
               (m', e', inexact) = round_binary64 n d
           in make_double (m < 0) m' e')
      | PInf \<Rightarrow> PInf
      | NInf \<Rightarrow> NInf
      | NaN \<Rightarrow> NaN)"

text \<open>
  \<^verbatim>\<open>value < 0\<close>, \<^verbatim>\<open>value > INT_MAX\<close> (the \<^verbatim>\<open>int\<close> is converted exactly) and
  \<^verbatim>\<open>static_cast<int>(value)\<close>, which cuts the fraction off.
\<close>

definition dless0 :: "double \<Rightarrow> bool" where
  "dless0 v = (case v of Finite m e \<Rightarrow> m < 0 | NInf \<Rightarrow> True | _ \<Rightarrow> False)"

definition dgreater :: "double \<Rightarrow> int \<Rightarrow> bool" where
  "dgreater v i =
     (case v of
        Finite m e \<Rightarrow> (if 0 \<le> e then i < m * 2 ^ nat e else i * 2 ^ nat (- e) < m)
      | PInf \<Rightarrow> True
      | _ \<Rightarrow> False)"

definition truncate :: "int \<Rightarrow> int \<Rightarrow> int" where
  "truncate m e = (if 0 \<le> e then m * 2 ^ nat e else m div 2 ^ nat (- e))"

text \<open>
  \<^verbatim>\<open>std::stod(str, &pos)\<close> is \<^verbatim>\<open>strtod\<close> in the C locale: leading white space, an
  optional sign, then \<^verbatim>\<open>inf\<close>, \<^verbatim>\<open>infinity\<close> or \<^verbatim>\<open>nan\<close> in any case, or a hexadecimal
  number after \<^verbatim>\<open>0x\<close> with an optional binary exponent, or a decimal number with an
  optional decimal exponent. A number has digits, with at most one point among them; an
  exponent counts only when it has a digit. \<open>pos\<close> is the number of characters used.
  \<open>stod\<close> throws \<^verbatim>\<open>std::invalid_argument\<close> when there is no number and
  \<^verbatim>\<open>std::out_of_range\<close> when \<^verbatim>\<open>strtod\<close> sets \<^verbatim>\<open>ERANGE\<close>: on overflow, and (glibc) on a
  result that is tiny and inexact.
\<close>

definition isxdigit :: "char \<Rightarrow> bool" where
  "isxdigit c = (isdigit c \<or> (97::nat) \<le> of_char c \<and> of_char c \<le> (102::nat)
     \<or> (65::nat) \<le> of_char c \<and> of_char c \<le> (70::nat))"

definition xdigit_val :: "char \<Rightarrow> int" where
  "xdigit_val c =
     (if isdigit c then int (of_char c) - 48
      else if (97::nat) \<le> of_char c then int (of_char c) - 87
      else int (of_char c) - 55)"

definition hexadecimal :: "string \<Rightarrow> int" where
  "hexadecimal ds = foldl (\<lambda>a c. 16 * a + xdigit_val c) 0 ds"

definition is_nchar :: "char \<Rightarrow> bool" where
  "is_nchar c = (isdigit c \<or> (97::nat) \<le> of_char c \<and> of_char c \<le> (122::nat)
     \<or> (65::nat) \<le> of_char c \<and> of_char c \<le> (90::nat) \<or> c = CHR ''_'')"

text \<open>Whether \<open>s\<close> starts with the lower-case text \<open>p\<close>, letters compared without case.\<close>

fun starts_ci :: "string \<Rightarrow> string \<Rightarrow> bool" where
  "starts_ci [] s = True"
| "starts_ci (p # ps) [] = False"
| "starts_ci (p # ps) (c # cs) =
     ((c = p \<or> (65::nat) \<le> of_char c \<and> of_char c \<le> (90::nat) \<and> of_char c + (32::nat) = of_char p)
      \<and> starts_ci ps cs)"

definition strip_point :: "string \<Rightarrow> bool \<times> string" where
  "strip_point s =
     (case s of [] \<Rightarrow> (False, []) | c # r \<Rightarrow> if c = CHR ''.'' then (True, r) else (False, s))"

definition exponent_part :: "char \<Rightarrow> char \<Rightarrow> string \<Rightarrow> int \<times> nat" where
  "exponent_part lo up s =
     (case s of
        [] \<Rightarrow> (0, 0)
      | c # cs \<Rightarrow>
          if c = lo \<or> c = up then
            let (eneg, r) = strip_sign cs;
                ed = takeWhile isdigit r
            in if ed = [] then (0, 0)
               else (if eneg then - decimal ed else decimal ed,
                     1 + (length cs - length r) + length ed)
          else (0, 0))"

definition number_body ::
  "(char \<Rightarrow> bool) \<Rightarrow> (string \<Rightarrow> int) \<Rightarrow> int \<Rightarrow> int \<Rightarrow> char \<Rightarrow> char \<Rightarrow> bool \<Rightarrow> string
     \<Rightarrow> (double \<times> bool \<times> nat) option" where
  "number_body isdig val base per_digit lo up neg s =
     (let ip = takeWhile isdig s;
          (haspoint, s1) = strip_point (dropWhile isdig s);
          fp = (if haspoint then takeWhile isdig s1 else []);
          s2 = (if haspoint then dropWhile isdig s1 else s1)
      in if ip = [] \<and> fp = [] then None
         else let (ex, exlen) = exponent_part lo up s2;
                  E = ex - per_digit * int (length fp);
                  M = val (ip @ fp);
                  n = (if 0 \<le> E then M * base ^ nat E else M);
                  d = (if 0 \<le> E then 1 else base ^ nat (- E));
                  (m, e, inexact) = round_binary64 n d
              in Some (make_double neg m e,
                       overflows m e \<or> (tiny n d \<and> inexact),
                       length ip + (if haspoint then 1 + length fp else 0) + exlen))"

definition nan_payload :: "string \<Rightarrow> nat" where
  "nan_payload s =
     (case s of
        [] \<Rightarrow> 0
      | c # cs \<Rightarrow>
          if c = CHR ''('' then
            (case dropWhile is_nchar cs of
               [] \<Rightarrow> 0
             | c' # r \<Rightarrow> if c' = CHR '')'' then length (takeWhile is_nchar cs) + 2 else 0)
          else 0)"

definition strtod_body :: "bool \<Rightarrow> string \<Rightarrow> (double \<times> bool \<times> nat) option" where
  "strtod_body neg s =
     (if starts_ci ''infinity'' s then Some (if neg then NInf else PInf, False, 8)
      else if starts_ci ''inf'' s then Some (if neg then NInf else PInf, False, 3)
      else if starts_ci ''nan'' s then Some (NaN, False, 3 + nan_payload (drop 3 s))
      else case (if starts_ci ''0x'' s
                 then number_body isxdigit hexadecimal 2 4 CHR ''p'' CHR ''P'' neg (drop 2 s)
                 else None) of
             Some (v, erange, n) \<Rightarrow> Some (v, erange, 2 + n)
           | None \<Rightarrow> number_body isdigit decimal 10 1 CHR ''e'' CHR ''E'' neg s)"

definition stod :: "string \<Rightarrow> exn + double \<times> nat" where
  "stod str =
     (let (neg, s) = strip_sign (dropWhile isspace str)
      in case strtod_body neg s of
           None \<Rightarrow> Inl Invalid_argument
         | Some (v, erange, n) \<Rightarrow>
             if erange then Inl Out_of_range else Inr (v, length str - length s + n))"

text \<open>
  \<open>parse_duration\<close> returns \<^verbatim>\<open>false\<close>, or stores \<open>duration_seconds\<close> and returns
  \<^verbatim>\<open>true\<close>; the exceptions of \<open>stod\<close> are not caught and leave the function. Converting
  a NaN to \<^verbatim>\<open>int\<close> is undefined behaviour. \<open>scaled_value\<close> is the value after the
  \<^verbatim>\<open>switch\<close> on the unit; \<open>None\<close> is its \<^verbatim>\<open>default: return false\<close>.
\<close>

datatype 'a result = Returns 'a | Throws exn | Undefined_behaviour

definition scaled_value :: "string \<Rightarrow> double option result" where
  "scaled_value duration_str =
     (case stod duration_str of
        Inl x \<Rightarrow> Throws x
      | Inr (v, pos) \<Rightarrow>
          if pos < length duration_str then
            let unit = duration_str ! pos
            in if unit = CHR ''s'' then Returns (Some v)
               else if unit = CHR ''m'' then Returns (Some (dmul v 60))
               else if unit = CHR ''h'' then Returns (Some (dmul v 3600))
               else if unit = CHR ''d'' then Returns (Some (dmul v 86400))
               else Returns None
          else Returns (Some v))"

definition parse_duration :: "string \<Rightarrow> timeout \<Rightarrow> (bool \<times> timeout) result" where
  "parse_duration duration_str t =
     (if duration_str = [] then Returns (False, t)
      else case scaled_value duration_str of
             Throws x \<Rightarrow> Throws x
           | Undefined_behaviour \<Rightarrow> Undefined_behaviour
           | Returns None \<Rightarrow> Returns (False, t)
           | Returns (Some v) \<Rightarrow>
               if dless0 v \<or> dgreater v INT_MAX then Returns (False, t)
               else (case v of
                       Finite m e \<Rightarrow> Returns (True, t\<lparr>duration_seconds := truncate m e\<rparr>)
                     | _ \<Rightarrow> Undefined_behaviour))"

text \<open>
  What \<open>parse_duration\<close> does, without the object it is called on: the number of
  seconds it stores, or \<open>None\<close> when it returns \<^verbatim>\<open>false\<close>.
\<close>

definition parsed_seconds :: "string \<Rightarrow> int option result" where
  "parsed_seconds s =
     (case parse_duration s Timeout of
        Returns (b, t') \<Rightarrow> Returns (if b then Some (duration_seconds t') else None)
      | Throws x \<Rightarrow> Throws x
      | Undefined_behaviour \<Rightarrow> Undefined_behaviour)"

subsection \<open>start_process, wait_for_process, terminate_process, kill_process\<close>

text \<open>
  \<open>start_process\<close> in the parent. The child branch (\<^verbatim>\<open>child_pid == 0\<close>) runs in the
  other process: there \<^verbatim>\<open>execvp\<close> either becomes the command or fails, and then the
  child writes its message to the shared error stream and exits with 127, which is what
  \<open>child_of\<close> says.
\<close>

definition start_process :: "os \<Rightarrow> timeout \<Rightarrow> world \<Rightarrow> bool \<times> timeout \<times> world" where
  "start_process env t w =
     (if command_args t = [] then (False, t, w)
      else let t' = t\<lparr>child_pid := fork_result env\<rparr>
           in if child_pid t' = -1 then (False, t', cerr Fork_failed w)
              else (True, t',
                    case execvp env of
                      Exec_ok c \<Rightarrow> w
                    | Exec_fails e \<Rightarrow> cerr Exec_failed w))"

lemma clock_waitpid: "waitpid env pid w = (res, w') \<Longrightarrow> clock w' = clock w"
  by (auto simp: waitpid_def split: if_splits option.splits)

text \<open>
  The polling loop of \<open>wait_for_process\<close>. \<open>start_time\<close> is the clock at entry; the
  elapsed time is cut to whole seconds by \<^verbatim>\<open>duration_cast<seconds>\<close>. The loop ends
  because each round sleeps 100 ms and the clock only advances.
\<close>

function wait_loop :: "os \<Rightarrow> int \<Rightarrow> int \<Rightarrow> nat \<Rightarrow> world \<Rightarrow> bool \<times> world" where
  "wait_loop env pid timeout_seconds start_time w =
     (let (res, w') = waitpid env pid w;
          result = fst res
      in if result = pid then (True, w')
         else if result = -1 then (False, w')
         else let elapsed = int ((clock w' - start_time) div 1000)
              in if elapsed \<ge> timeout_seconds then (False, w')
                 else wait_loop env pid timeout_seconds start_time (sleep_for 100 w'))"
  by pat_completeness auto

termination
proof (relation "measure (\<lambda>(env, pid, timeout_seconds, start_time, w).
          nat (timeout_seconds * 1000) + start_time - clock w)", goal_cases)
  case 1
  show ?case by simp
next
  case (2 env pid timeout_seconds start_time w x res w' result elapsed)
  have c: "clock w' = clock w"
    using 2 clock_waitpid [of env pid w res w'] by auto
  have "int ((clock w - start_time) div 1000) < timeout_seconds"
    using 2 c by simp
  then have "clock w < nat (timeout_seconds * 1000) + start_time"
    by (simp add: nat_less_iff zdiv_int)
  then show ?case
    using c by (simp add: sleep_for_def)
qed

declare wait_loop.simps [simp del]

definition wait_for_process :: "os \<Rightarrow> timeout \<Rightarrow> int \<Rightarrow> world \<Rightarrow> bool \<times> world" where
  "wait_for_process env t timeout_seconds w =
     (if child_pid t = -1 then (False, w)
      else wait_loop env (child_pid t) timeout_seconds (clock w) w)"

definition terminate_process :: "timeout \<Rightarrow> world \<Rightarrow> world" where
  "terminate_process t w =
     (if child_pid t \<noteq> -1 then
        let signal = parse_signal (signal_name t);
            w1 = (if verbose t then cerr (Sending_signal signal (child_pid t)) w else w)
        in kill (child_pid t) signal w1
      else w)"

definition kill_process :: "timeout \<Rightarrow> world \<Rightarrow> world" where
  "kill_process t w =
     (if child_pid t \<noteq> -1 then
        let w1 = (if verbose t then cerr (Sending_SIGKILL (child_pid t)) w else w)
        in kill (child_pid t) SIGKILL w1
      else w)"

subsection \<open>run\<close>

text \<open>The exit code, and the world as \<open>run\<close> leaves it.\<close>

definition run :: "os \<Rightarrow> timeout \<Rightarrow> int \<times> world" where
  "run env t0 =
     (let (started, t, w) = start_process env t0 world0
      in if \<not> started then (125, w)
         else let (done, w1) = wait_for_process env t (duration_seconds t) w
              in if done then (0, w1)
                 else let w2 = terminate_process t w1
                      in if kill_after_seconds t > 0 then
                           let (done', w3) = wait_for_process env t (kill_after_seconds t) w2
                           in if done' then (if preserve_status t then 0 else 124, w3)
                              else let w4 = kill_process t w3;
                                       w5 = sleep_for 100 w4
                                   in (137, w5)
                         else (if preserve_status t then 0 else 124, w2))"

section \<open>Inputs used as examples\<close>

text \<open>
  Commands: one that never ends and ignores every signal, one that exits on its own, one
  that exits some time after \<open>SIGTERM\<close>. Environments: the fork succeeds with pid 4711 and
  \<^verbatim>\<open>execvp\<close> succeeds or fails, or the fork fails. \<open>supervising d k p\<close> is the object after
  \<open>parse_args\<close> for a duration \<open>d\<close>, a kill-after \<open>k\<close> and the flag \<open>preserve_status\<close>.
\<close>

definition stubborn :: command where
  "stubborn = \<lparr>exits_at = None, reacts = (\<lambda>s. None)\<rparr>"

definition spawning :: "command \<Rightarrow> os" where
  "spawning c = \<lparr>fork_result = 4711, execvp = Exec_ok c, sigchld_ignored = False\<rparr>"

definition supervising :: "int \<Rightarrow> int \<Rightarrow> bool \<Rightarrow> timeout" where
  "supervising d k p = Timeout\<lparr>duration_seconds := d, kill_after_seconds := k, preserve_status := p,
     command_args := [''cmd'']\<rparr>"

definition exits_with :: "int \<Rightarrow> nat \<Rightarrow> command" where
  "exits_with code ms = \<lparr>exits_at = Some (ms, Exited code), reacts = (\<lambda>s. None)\<rparr>"

definition graceful :: "int \<Rightarrow> nat \<Rightarrow> command" where
  "graceful code ms =
     \<lparr>exits_at = None, reacts = (\<lambda>s. if s = SIGTERM then Some (ms, Exited code) else None)\<rparr>"

definition failing_exec :: "errno \<Rightarrow> os" where
  "failing_exec e = \<lparr>fork_result = 4711, execvp = Exec_fails e, sigchld_ignored = False\<rparr>"

definition failing_fork :: os where
  "failing_fork = \<lparr>fork_result = -1, execvp = Exec_ok stubborn, sigchld_ignored = False\<rparr>"


section \<open>The polling loop\<close>

lemma wait_loop_keeps:
  "wait_loop env pid T s w = (b, w') \<Longrightarrow> sent w' = sent w \<and> stderr w' = stderr w \<and> clock w \<le> clock w'"
proof (induction env pid T s w rule: wait_loop.induct)
  case (1 env pid T s w)
  obtain res w1 where r: "waitpid env pid w = (res, w1)" by (cases "waitpid env pid w")
  have k: "sent w1 = sent w \<and> stderr w1 = stderr w \<and> clock w1 = clock w"
    using r by (auto simp: waitpid_def split: if_splits option.splits)
  show ?case
  proof (cases "fst res = pid \<or> fst res = -1 \<or> T \<le> int ((clock w1 - s) div 1000)")
    case True
    then have "wait_loop env pid T s w = (fst res = pid, w1)"
      using r by (subst wait_loop.simps) (auto simp: Let_def)
    then show ?thesis using 1(2) k by simp
  next
    case False
    then have e: "wait_loop env pid T s w = wait_loop env pid T s (sleep_for 100 w1)"
      using r by (subst wait_loop.simps) (auto simp: Let_def)
    have "sent w' = sent (sleep_for 100 w1) \<and> stderr w' = stderr (sleep_for 100 w1) \<and> clock (sleep_for 100 w1) \<le> clock w'"
      using 1(1) [OF r [symmetric] refl refl _ _ refl] False e 1(2) by auto
    then show ?thesis using k by (simp add: sleep_for_def)
  qed
qed

lemma status_at_mono: "status_at c ks t = None \<Longrightarrow> t' \<le> t \<Longrightarrow> status_at c ks t' = None"
  by (auto simp: status_at_def split: option.splits if_splits)

lemma wait_loop_timeout:
  assumes "pid = fork_result env" "0 < pid" "\<not> reaped w"
    and "status_at (child_of env) (sent w) (s + 1000 * nat T) = None"
    and "clock w = s + 100 * k" "k \<le> 10 * nat T"
  shows "wait_loop env pid T s w = (False, w\<lparr>clock := s + 1000 * nat T\<rparr>)"
  using assms
proof (induction "10 * nat T - k" arbitrary: k w)
  case 0
  then have k: "k = 10 * nat T" by simp
  have st: "status_at (child_of env) (sent w) (clock w) = None"
    using 0 k by simp
  have r: "waitpid env pid w = ((0, None), w)"
    using 0 st by (simp add: waitpid_def)
  have "T \<le> int ((clock w - s) div 1000)"
    using 0 k by simp
  then have "wait_loop env pid T s w = (False, w)"
    using r 0(3) by (subst wait_loop.simps) (simp add: Let_def)
  moreover have "w\<lparr>clock := s + 1000 * nat T\<rparr> = w"
    using 0 k by simp
  ultimately show ?case by simp
next
  case (Suc n)
  then have k: "k < 10 * nat T" by simp
  have st: "status_at (child_of env) (sent w) (clock w) = None"
    using Suc k by (intro status_at_mono [OF Suc(6)]) simp
  have r: "waitpid env pid w = ((0, None), w)"
    using Suc st by (simp add: waitpid_def)
  have "(clock w - s) div 1000 < nat T"
    using Suc k by simp
  then have "\<not> T \<le> int ((clock w - s) div 1000)"
    by linarith
  then have e: "wait_loop env pid T s w = wait_loop env pid T s (sleep_for 100 w)"
    using r Suc(4) by (subst wait_loop.simps) (simp add: Let_def)
  have "wait_loop env pid T s (sleep_for 100 w) = (False, (sleep_for 100 w)\<lparr>clock := s + 1000 * nat T\<rparr>)"
    using Suc k by (intro Suc(1) [of "Suc k"]) (auto simp: sleep_for_def)
  then show ?case using e by (simp add: sleep_for_def)
qed

lemma wait_loop_done:
  assumes "pid = fork_result env" "0 < pid" "\<not> reaped w" "\<not> sigchld_ignored env"
    and "status_at (child_of env) (sent w) (s + 1000 * nat T) \<noteq> None"
    and "clock w = s + 100 * k" "k \<le> 10 * nat T"
  shows "\<exists>w'. wait_loop env pid T s w = (True, w')"
  using assms
proof (induction "10 * nat T - k" arbitrary: k w)
  case 0
  then have k: "k = 10 * nat T" by simp
  then obtain st where st: "status_at (child_of env) (sent w) (clock w) = Some st"
    using 0 by auto
  have r: "waitpid env pid w = ((pid, Some st), w\<lparr>reaped := True\<rparr>)"
    using 0 st by (simp add: waitpid_def)
  show ?case
    using r by (subst wait_loop.simps) (simp add: Let_def)
next
  case (Suc n)
  show ?case
  proof (cases "status_at (child_of env) (sent w) (clock w)")
    case (Some st)
    have r: "waitpid env pid w = ((pid, Some st), w\<lparr>reaped := True\<rparr>)"
      using Suc Some by (simp add: waitpid_def)
    show ?thesis
      using r by (subst wait_loop.simps) (simp add: Let_def)
  next
    case None
    have k: "k < 10 * nat T" using Suc by simp
    have r: "waitpid env pid w = ((0, None), w)"
      using Suc None by (simp add: waitpid_def)
    have "(clock w - s) div 1000 < nat T"
      using Suc k by simp
    then have "\<not> T \<le> int ((clock w - s) div 1000)"
      by linarith
    then have e: "wait_loop env pid T s w = wait_loop env pid T s (sleep_for 100 w)"
      using r Suc(4) by (subst wait_loop.simps) (simp add: Let_def)
    have "\<exists>w'. wait_loop env pid T s (sleep_for 100 w) = (True, w')"
      using Suc k by (intro Suc(1) [of "Suc k"]) (auto simp: sleep_for_def)
    then show ?thesis using e by simp
  qed
qed

lemma wait_for_process_keeps:
  "wait_for_process env t T w = (b, w') \<Longrightarrow> sent w' = sent w \<and> stderr w' = stderr w \<and> clock w \<le> clock w'"
  using wait_loop_keeps [of env "child_pid t" T "clock w" w b w']
  by (auto simp: wait_for_process_def split: if_splits)

lemma start_process_ok:
  assumes "command_args t \<noteq> []" "0 < fork_result env"
  shows "\<exists>w. start_process env t world0 = (True, t\<lparr>child_pid := fork_result env\<rparr>, w)
     \<and> clock w = 0 \<and> sent w = [] \<and> \<not> reaped w \<and> filter is_diagnostic (stderr w) = []"
  using assms
  by (auto simp: start_process_def world0_def cerr_def is_diagnostic_def Let_def split: exec_result.splits)

lemma wait_for_process_timeout:
  assumes "child_pid t = fork_result env" "0 < fork_result env" "\<not> reaped w"
    and "status_at (child_of env) (sent w) (clock w + 1000 * nat T) = None"
  shows "wait_for_process env t T w = (False, w\<lparr>clock := clock w + 1000 * nat T\<rparr>)"
  using assms wait_loop_timeout [of "child_pid t" env w "clock w" T 0]
  by (simp add: wait_for_process_def)

lemma wait_for_process_done:
  assumes "child_pid t = fork_result env" "0 < fork_result env" "\<not> reaped w"
    and "\<not> sigchld_ignored env"
    and "status_at (child_of env) (sent w) (clock w + 1000 * nat T) \<noteq> None"
  shows "\<exists>w'. wait_for_process env t T w = (True, w') \<and> sent w' = sent w"
proof -
  obtain w' where 1: "wait_loop env (child_pid t) T (clock w) w = (True, w')"
    using assms wait_loop_done [of "child_pid t" env w "clock w" T 0] by auto
  have "sent w' = sent w"
    using wait_loop_keeps [OF 1] by simp
  then show ?thesis
    using 1 assms(1,2) by (simp add: wait_for_process_def)
qed

section \<open>Escalation\<close>

text \<open>
  C6. When the child is still running at the deadline and, with the initial signal
  delivered, still running when the grace period of \<open>kill_after_seconds\<close> is over,
  \<open>run\<close> sends \<open>SIGKILL\<close> and returns 137, whatever \<open>preserve_status\<close> is. \<open>run\<close> is
  a total function (the polling loop terminates), and it returns 100 ms after the kill:
  there is no indefinite wait.
\<close>

theorem escalation_returns_137:
  assumes args: "command_args t \<noteq> []"
    and fork: "0 < fork_result env"
    and k: "0 < kill_after_seconds t"
    and alive1: "status_at (child_of env) [] (1000 * nat (duration_seconds t)) = None"
    and alive2: "status_at (child_of env)
          [(1000 * nat (duration_seconds t), parse_signal (signal_name t))]
          (1000 * nat (duration_seconds t) + 1000 * nat (kill_after_seconds t)) = None"
  shows "fst (run env t) = 137
    \<and> sent (snd (run env t)) =
        [(1000 * nat (duration_seconds t), parse_signal (signal_name t)),
         (1000 * nat (duration_seconds t) + 1000 * nat (kill_after_seconds t), SIGKILL)]
    \<and> clock (snd (run env t)) =
        1000 * nat (duration_seconds t) + 1000 * nat (kill_after_seconds t) + 100"
proof -
  define t' where "t' = t\<lparr>child_pid := fork_result env\<rparr>"
  obtain w where s: "start_process env t world0 = (True, t', w)"
    and w: "clock w = 0" "sent w = []" "\<not> reaped w"
    using start_process_ok [OF args fork] t'_def by blast
  have pid: "child_pid t' = fork_result env" "child_pid t' \<noteq> -1"
    using fork by (simp_all add: t'_def)
  have f: "duration_seconds t' = duration_seconds t" "kill_after_seconds t' = kill_after_seconds t"
    "signal_name t' = signal_name t"
    by (simp_all add: t'_def)
  define w1 where "w1 = w\<lparr>clock := 1000 * nat (duration_seconds t)\<rparr>"
  have 1: "wait_for_process env t' (duration_seconds t') w = (False, w1)"
    using wait_for_process_timeout [of t' env w "duration_seconds t"] pid fork w alive1
    by (simp add: f w1_def)
  define w2 where "w2 = terminate_process t' w1"
  have w2: "clock w2 = 1000 * nat (duration_seconds t)"
    "sent w2 = [(1000 * nat (duration_seconds t), parse_signal (signal_name t))]" "\<not> reaped w2"
    using pid w by (simp_all add: w2_def w1_def terminate_process_def kill_def cerr_def Let_def f)
  define w3 where "w3 = w2\<lparr>clock := clock w2 + 1000 * nat (kill_after_seconds t)\<rparr>"
  have 2: "wait_for_process env t' (kill_after_seconds t') w2 = (False, w3)"
    using wait_for_process_timeout [of t' env w2 "kill_after_seconds t"] pid fork w2 alive2
    by (simp add: f w3_def)
  have r: "run env t = (137, sleep_for 100 (kill_process t' w3))"
    using s 1 2 k by (simp add: run_def Let_def f w2_def)
  show ?thesis
    using pid w2 by (simp add: r w3_def kill_process_def kill_def cerr_def sleep_for_def Let_def)
qed

theorem escalation_returns_137_witness:
  "fst (run (spawning stubborn) (supervising 1 1 True)) = 137 \<and>
   sent (snd (run (spawning stubborn) (supervising 1 1 True))) = [(1000, SIGTERM), (2000, SIGKILL)] \<and>
   clock (snd (run (spawning stubborn) (supervising 1 1 True))) = 2100"
  using escalation_returns_137 [of "supervising 1 1 True" "spawning stubborn"]
  by (simp add: supervising_def spawning_def stubborn_def Timeout_def child_of_def status_at_def
      deaths_def parse_signal_def)

section \<open>The child ends before the deadline\<close>

text \<open>
  Whenever the child has ended by the deadline (and \<^verbatim>\<open>waitpid\<close> can report it), \<open>run\<close>
  returns 0 and sends no signal. The status of the child plays no part.
\<close>

lemma run_child_ends_in_time:
  assumes args: "command_args t \<noteq> []"
    and fork: "0 < fork_result env"
    and chld: "\<not> sigchld_ignored env"
    and ended: "status_at (child_of env) [] (1000 * nat (duration_seconds t)) \<noteq> None"
  shows "fst (run env t) = 0 \<and> sent (snd (run env t)) = []"
proof -
  define t' where "t' = t\<lparr>child_pid := fork_result env\<rparr>"
  obtain w where s: "start_process env t world0 = (True, t', w)"
    and w: "clock w = 0" "sent w = []" "\<not> reaped w"
    using start_process_ok [OF args fork] t'_def by blast
  have pid: "child_pid t' = fork_result env"
    by (simp add: t'_def)
  have f: "duration_seconds t' = duration_seconds t"
    by (simp add: t'_def)
  obtain w1 where 1: "wait_for_process env t' (duration_seconds t') w = (True, w1)" "sent w1 = sent w"
    using wait_for_process_done [of t' env w "duration_seconds t"] pid fork chld w ended
    by (auto simp: f)
  have "run env t = (0, w1)"
    using s 1 by (simp add: run_def Let_def)
  then show ?thesis using 1 w by simp
qed

text \<open>
  C1. The claim is that \<open>run\<close> returns the exit code of a command that ends before the
  deadline. \<open>wait_for_process\<close> returns a \<^typ>\<open>bool\<close> only: the status that
  \<^verbatim>\<open>waitpid\<close> stored is dropped, and \<open>run\<close> returns the constant 0. Here the
  command exits with code 3 after 50 ms, the deadline is 5 s, and \<open>run\<close> returns 0, with
  and without \<open>preserve_status\<close>.
\<close>

theorem exit_code_not_passed_through:
  "status_at (child_of (spawning (exits_with 3 50))) [] 50 = Some (Exited 3)
   \<and> fst (run (spawning (exits_with 3 50)) (supervising 5 0 False)) = 0
   \<and> fst (run (spawning (exits_with 3 50)) (supervising 5 0 True)) = 0"
  by code_simp

section \<open>The child ends in the grace period\<close>

text \<open>
  Whenever the child outlives the deadline and ends within the grace period, \<open>run\<close>
  returns 124, or 0 with \<open>preserve_status\<close>; it sends the initial signal and nothing
  else. Again the status of the child plays no part.
\<close>

lemma run_child_ends_in_grace:
  assumes args: "command_args t \<noteq> []"
    and fork: "0 < fork_result env"
    and chld: "\<not> sigchld_ignored env"
    and k: "0 < kill_after_seconds t"
    and alive: "status_at (child_of env) [] (1000 * nat (duration_seconds t)) = None"
    and ended: "status_at (child_of env)
          [(1000 * nat (duration_seconds t), parse_signal (signal_name t))]
          (1000 * nat (duration_seconds t) + 1000 * nat (kill_after_seconds t)) \<noteq> None"
  shows "fst (run env t) = (if preserve_status t then 0 else 124)
    \<and> sent (snd (run env t)) = [(1000 * nat (duration_seconds t), parse_signal (signal_name t))]"
proof -
  define t' where "t' = t\<lparr>child_pid := fork_result env\<rparr>"
  obtain w where s: "start_process env t world0 = (True, t', w)"
    and w: "clock w = 0" "sent w = []" "\<not> reaped w"
    using start_process_ok [OF args fork] t'_def by blast
  have pid: "child_pid t' = fork_result env" "child_pid t' \<noteq> -1"
    using fork by (simp_all add: t'_def)
  have f: "duration_seconds t' = duration_seconds t" "kill_after_seconds t' = kill_after_seconds t"
    "signal_name t' = signal_name t" "preserve_status t' = preserve_status t"
    by (simp_all add: t'_def)
  define w1 where "w1 = w\<lparr>clock := 1000 * nat (duration_seconds t)\<rparr>"
  have 1: "wait_for_process env t' (duration_seconds t') w = (False, w1)"
    using wait_for_process_timeout [of t' env w "duration_seconds t"] pid fork w alive
    by (simp add: f w1_def)
  define w2 where "w2 = terminate_process t' w1"
  have w2: "clock w2 = 1000 * nat (duration_seconds t)"
    "sent w2 = [(1000 * nat (duration_seconds t), parse_signal (signal_name t))]" "\<not> reaped w2"
    using pid w by (simp_all add: w2_def w1_def terminate_process_def kill_def cerr_def Let_def f)
  obtain w3 where 2: "wait_for_process env t' (kill_after_seconds t') w2 = (True, w3)" "sent w3 = sent w2"
    using wait_for_process_done [of t' env w2 "kill_after_seconds t"] pid fork chld w2 ended
    by (auto simp: f)
  have "run env t = (if preserve_status t then 0 else 124, w3)"
    using s 1 2 k by (simp add: run_def Let_def f w2_def)
  then show ?thesis using 2 w2 by simp
qed

text \<open>
  C2. The command exits with code 3, 500 ms after the initial signal; the grace period is
  2 s. With \<open>preserve_status\<close> the claim is that \<open>run\<close> returns 3: it returns 0.
  Without \<open>preserve_status\<close> it returns 124, as claimed.
\<close>

theorem preserve_status_returns_0:
  "run (spawning (graceful 3 500)) (supervising 1 2 True) =
     (0, \<lparr>clock = 1500, sent = [(1000, SIGTERM)], reaped = True, stderr = []\<rparr>)
   \<and> status_at (graceful 3 500) [(1000, SIGTERM)] 1500 = Some (Exited 3)
   \<and> fst (run (spawning (graceful 3 500)) (supervising 1 2 False)) = 124"
  by code_simp

section \<open>No kill-after\<close>




section \<open>Duration 0\<close>

text \<open>
  C4. The claim is that a duration of 0 means no timeout: \<open>run\<close> waits for the child
  and never signals it. \<open>run\<close> has no case for 0: \<open>wait_for_process\<close> with 0 seconds
  polls once and gives up, and the timeout path follows. Here the command would exit with
  code 0 after 500 ms; \<open>run\<close> sends \<open>SIGTERM\<close> at time 0 and returns 124 at once.
\<close>

theorem duration_0_times_out_at_once:
  "run (spawning (exits_with 0 500)) (supervising 0 0 False) =
     (124, \<lparr>clock = 0, sent = [(0, SIGTERM)], reaped = False, stderr = []\<rparr>)"
  by code_simp

section \<open>Spawn failures\<close>

text \<open>
  C5. The claim is 127 for a command that is not found, 126 for one that cannot be
  invoked and 125 for every other spawn failure. A failed \<^verbatim>\<open>fork\<close> gives 125. When
  \<^verbatim>\<open>execvp\<close> fails, the child calls \<^verbatim>\<open>exit(127)\<close> whatever the error, and the parent
  drops that status too: \<open>run\<close> returns 0 for \<^verbatim>\<open>ENOENT\<close> and for \<^verbatim>\<open>EACCES\<close>.
\<close>

theorem exec_failure_returns_0:
  "fst (run (failing_exec ENOENT) (supervising 5 0 False)) = 0
   \<and> fst (run (failing_exec EACCES) (supervising 5 0 False)) = 0
   \<and> fst (run failing_fork (supervising 5 0 False)) = 125"
  by code_simp

section \<open>Diagnostics\<close>

lemma diagnostics_terminate_process:
  "diagnostics w = (if verbose t then length (sent w) else 0) \<Longrightarrow>
   diagnostics (terminate_process t w) = (if verbose t then length (sent (terminate_process t w)) else 0)"
  by (cases "verbose t")
    (simp_all add: diagnostics_def terminate_process_def kill_def cerr_def Let_def is_diagnostic_def)

lemma diagnostics_kill_process:
  "diagnostics w = (if verbose t then length (sent w) else 0) \<Longrightarrow>
   diagnostics (kill_process t w) = (if verbose t then length (sent (kill_process t w)) else 0)"
  by (cases "verbose t")
    (simp_all add: diagnostics_def kill_process_def kill_def cerr_def Let_def is_diagnostic_def)

text \<open>
  C9. The error stream holds one diagnostic line for each call of \<^verbatim>\<open>kill\<close> that
  \<open>run\<close> made when \<open>verbose\<close> is set, and none when it is not.
\<close>

theorem one_diagnostic_per_action:
  "diagnostics (snd (run env t)) = (if verbose t then length (sent (snd (run env t))) else 0)"
proof -
  obtain started t' w where s: "start_process env t world0 = (started, t', w)"
    by (cases "start_process env t world0")
  have v: "verbose t' = verbose t"
    using s by (auto simp: start_process_def Let_def split: if_splits)
  have w: "diagnostics w = (if verbose t' then length (sent w) else 0)"
    using s by (auto simp: start_process_def world0_def cerr_def diagnostics_def is_diagnostic_def Let_def
        split: if_splits exec_result.splits)
  obtain b1 w1 where 1: "wait_for_process env t' (duration_seconds t') w = (b1, w1)"
    by (cases "wait_for_process env t' (duration_seconds t') w")
  have w1: "diagnostics w1 = (if verbose t' then length (sent w1) else 0)"
    using w wait_for_process_keeps [OF 1] by (simp add: diagnostics_def)
  define w2 where "w2 = terminate_process t' w1"
  have w2: "diagnostics w2 = (if verbose t' then length (sent w2) else 0)"
    unfolding w2_def using w1 by (rule diagnostics_terminate_process)
  obtain b3 w3 where 3: "wait_for_process env t' (kill_after_seconds t') w2 = (b3, w3)"
    by (cases "wait_for_process env t' (kill_after_seconds t') w2")
  have w3: "diagnostics w3 = (if verbose t' then length (sent w3) else 0)"
    using w2 wait_for_process_keeps [OF 3] by (simp add: diagnostics_def)
  have w4: "diagnostics (kill_process t' w3) = (if verbose t' then length (sent (kill_process t' w3)) else 0)"
    using w3 by (rule diagnostics_kill_process)
  have w5: "diagnostics (sleep_for 100 (kill_process t' w3)) =
      (if verbose t' then length (sent (sleep_for 100 (kill_process t' w3))) else 0)"
    using w4 by (simp add: diagnostics_def sleep_for_def)
  have "snd (run env t) \<in> {w, w1, w2, w3, sleep_for 100 (kill_process t' w3)}"
    using s 1 3 by (simp add: run_def Let_def w2_def)
  then show ?thesis
    using w w1 w2 w3 w5 v by auto
qed

section \<open>Signal names\<close>

lemma isdigit_no_sign: "isdigit c \<Longrightarrow> c \<noteq> CHR ''-'' \<and> c \<noteq> CHR ''+'' \<and> \<not> isspace c"
  by (auto simp: isdigit_def isspace_def)

lemma sign_no_space: "\<not> isspace CHR ''-''" "\<not> isspace CHR ''+''"
  by (simp_all add: isspace_def)

lemma dropWhile_isspace:
  assumes "list_all isspace ws" "r = [] \<or> \<not> isspace (hd r)"
  shows "dropWhile isspace (ws @ r) = r"
proof -
  have "dropWhile isspace (ws @ r) = dropWhile isspace r"
    using assms(1) by (simp add: list_all_iff dropWhile_append2)
  also have "\<dots> = r"
    using assms(2) by (cases r) auto
  finally show ?thesis .
qed

lemma takeWhile_isdigit:
  assumes "list_all isdigit ds" "rest = [] \<or> \<not> isdigit (hd rest)"
  shows "takeWhile isdigit (ds @ rest) = ds"
proof -
  have "takeWhile isdigit (ds @ rest) = ds @ takeWhile isdigit rest"
    using assms(1) by (simp add: list_all_iff takeWhile_append2)
  also have "takeWhile isdigit rest = []"
    using assms(2) by (cases rest) auto
  finally show ?thesis by simp
qed

lemma stoi_number:
  assumes ws: "list_all isspace ws"
    and sg: "sg \<in> {[], ''-'', ''+''}"
    and ds: "ds \<noteq> []" "list_all isdigit ds"
    and rest: "rest = [] \<or> \<not> isdigit (hd rest)"
  shows "stoi (ws @ sg @ ds @ rest) =
     (let v = (if sg = ''-'' then - decimal ds else decimal ds)
      in if v < INT_MIN \<or> INT_MAX < v then Inl Out_of_range else Inr v)"
proof -
  obtain c cs where c: "ds = c # cs" "isdigit c"
    using ds by (cases ds) auto
  have "sg @ ds @ rest \<noteq> [] \<and> \<not> isspace (hd (sg @ ds @ rest))"
    using sg c isdigit_no_sign [of c] sign_no_space by auto
  then have 1: "dropWhile isspace (ws @ sg @ ds @ rest) = sg @ ds @ rest"
    using dropWhile_isspace [OF ws, of "sg @ ds @ rest"] by simp
  have 2: "strip_sign (sg @ ds @ rest) = (sg = ''-'', ds @ rest)"
    using sg c isdigit_no_sign [of c] by (auto simp: strip_sign_def)
  have 3: "takeWhile isdigit (ds @ rest) = ds"
    using ds(2) rest by (rule takeWhile_isdigit)
  show ?thesis
    using ds(1) by (simp add: stoi_def 1 2 3 Let_def)
qed

lemma stoi_no_number:
  assumes ws: "list_all isspace ws"
    and r: "r = [] \<or> \<not> isspace (hd r) \<and> \<not> isdigit (hd r)
        \<and> (hd r \<in> {CHR ''-'', CHR ''+''} \<longrightarrow> tl r = [] \<or> \<not> isdigit (hd (tl r)))"
  shows "stoi (ws @ r) = Inl Invalid_argument"
proof -
  have 1: "dropWhile isspace (ws @ r) = r"
    using ws r by (intro dropWhile_isspace) auto
  have "takeWhile isdigit (snd (strip_sign r)) = []"
  proof (cases r)
    case Nil
    then show ?thesis by (simp add: strip_sign_def)
  next
    case (Cons c cs)
    then show ?thesis
      using r by (cases cs) (auto simp: strip_sign_def)
  qed
  moreover obtain neg s' where "strip_sign r = (neg, s')"
    by (cases "strip_sign r")
  ultimately show ?thesis
    by (simp add: stoi_def 1 Let_def)
qed

lemma name_starts_with_letter:
  assumes "s \<in> {''TERM'', ''INT'', ''HUP'', ''KILL'', ''USR1'', ''USR2'',
             ''SIGTERM'', ''SIGINT'', ''SIGHUP'', ''SIGKILL'', ''SIGUSR1'', ''SIGUSR2''}"
  shows "s \<noteq> [] \<and> \<not> isspace (hd s) \<and> \<not> isdigit (hd s) \<and> hd s \<noteq> CHR ''-'' \<and> hd s \<noteq> CHR ''+''"
  using assms by (auto simp: isspace_def isdigit_def)

lemma parse_signal_default:
  assumes "stoi s = Inl x"
    and "s \<notin> {''TERM'', ''INT'', ''HUP'', ''KILL'', ''USR1'', ''USR2'',
             ''SIGTERM'', ''SIGINT'', ''SIGHUP'', ''SIGKILL'', ''SIGUSR1'', ''SIGUSR2''}"
  shows "parse_signal s = SIGTERM"
  using assms by (simp add: parse_signal_def)

lemma parse_signal_number: "s \<noteq> [] \<Longrightarrow> stoi s = Inr n \<Longrightarrow> parse_signal s = n"
  by (simp add: parse_signal_def)

text \<open>
  C8, as stated, fails: \<open>9abc\<close> is neither a decimal integer nor one of the six names,
  and \<open>parse_signal\<close> gives 9, not \<open>SIGTERM\<close>, because \<^verbatim>\<open>std::stoi\<close> reads the number
  at the start of a text and ignores what follows it. \<open>SIGKILL\<close> is not among the six
  names either, and gives \<open>SIGKILL\<close>.
\<close>

theorem parse_signal_takes_any_number_at_the_start:
  "\<not> list_all isdigit ''9abc'' \<and> parse_signal ''9abc'' = 9 \<and> parse_signal ''9abc'' \<noteq> SIGTERM
   \<and> parse_signal ''SIGKILL'' = SIGKILL \<and> parse_signal ''SIGKILL'' \<noteq> SIGTERM"
  by code_simp

text \<open>
  C8, amended. A text that starts, after white space and at most one sign, with decimal
  digits gives the number those digits spell, whatever follows them, when the number is
  an \<^verbatim>\<open>int\<close>, and \<open>SIGTERM\<close> when it is not. Each of the names TERM, INT, HUP, KILL, USR1
  and USR2, with or without the prefix SIG, gives its signal. Every other text, that is
  one with no digit in that place that is none of these names, gives \<open>SIGTERM\<close>.
\<close>

theorem parse_signal_cases:
  "(list_all isspace ws \<and> sg \<in> {[], ''-'', ''+''} \<and> ds \<noteq> [] \<and> list_all isdigit ds
      \<and> (rest = [] \<or> \<not> isdigit (hd rest)) \<longrightarrow>
      parse_signal (ws @ sg @ ds @ rest) =
        (let v = (if sg = ''-'' then - decimal ds else decimal ds)
         in if INT_MIN \<le> v \<and> v \<le> INT_MAX then v else SIGTERM))
   \<and> parse_signal ''TERM'' = SIGTERM \<and> parse_signal ''SIGTERM'' = SIGTERM
   \<and> parse_signal ''INT'' = SIGINT \<and> parse_signal ''SIGINT'' = SIGINT
   \<and> parse_signal ''HUP'' = SIGHUP \<and> parse_signal ''SIGHUP'' = SIGHUP
   \<and> parse_signal ''KILL'' = SIGKILL \<and> parse_signal ''SIGKILL'' = SIGKILL
   \<and> parse_signal ''USR1'' = SIGUSR1 \<and> parse_signal ''SIGUSR1'' = SIGUSR1
   \<and> parse_signal ''USR2'' = SIGUSR2 \<and> parse_signal ''SIGUSR2'' = SIGUSR2
   \<and> (list_all isspace ws
        \<and> (r = [] \<or> \<not> isspace (hd r) \<and> \<not> isdigit (hd r)
              \<and> (hd r \<in> {CHR ''-'', CHR ''+''} \<longrightarrow> tl r = [] \<or> \<not> isdigit (hd (tl r))))
        \<and> ws @ r \<notin> {''TERM'', ''INT'', ''HUP'', ''KILL'', ''USR1'', ''USR2'',
             ''SIGTERM'', ''SIGINT'', ''SIGHUP'', ''SIGKILL'', ''SIGUSR1'', ''SIGUSR2''}
        \<longrightarrow> parse_signal (ws @ r) = SIGTERM)"
proof -
  have number: "parse_signal (ws @ sg @ ds @ rest) =
        (let v = (if sg = ''-'' then - decimal ds else decimal ds)
         in if INT_MIN \<le> v \<and> v \<le> INT_MAX then v else SIGTERM)"
    if h: "list_all isspace ws \<and> sg \<in> {[], ''-'', ''+''} \<and> ds \<noteq> [] \<and> list_all isdigit ds
      \<and> (rest = [] \<or> \<not> isdigit (hd rest))"
  proof -
    let ?s = "ws @ sg @ ds @ rest"
    let ?v = "if sg = ''-'' then - decimal ds else decimal ds"
    have s: "stoi ?s = (if ?v < INT_MIN \<or> INT_MAX < ?v then Inl Out_of_range else Inr ?v)"
      using stoi_number [of ws sg ds rest] h by (simp add: Let_def)
    obtain c cs where c: "ds = c # cs" "isdigit c"
      using h by (cases ds) auto
    have hd: "?s \<noteq> [] \<and> (isspace (hd ?s) \<or> isdigit (hd ?s) \<or> hd ?s = CHR ''-'' \<or> hd ?s = CHR ''+'')"
      using h c by (cases ws) auto
    then have n: "?s \<notin> {''TERM'', ''INT'', ''HUP'', ''KILL'', ''USR1'', ''USR2'',
             ''SIGTERM'', ''SIGINT'', ''SIGHUP'', ''SIGKILL'', ''SIGUSR1'', ''SIGUSR2''}"
      using name_starts_with_letter [of ?s] by blast
    show ?thesis
    proof (cases "?v < INT_MIN \<or> INT_MAX < ?v")
      case True
      then have "parse_signal ?s = SIGTERM"
        using s n by (intro parse_signal_default [of ?s Out_of_range]) simp_all
      then show ?thesis using True by (auto simp: Let_def)
    next
      case False
      then have "stoi ?s = Inr ?v" using s by simp
      moreover have "?s \<noteq> []" using hd by blast
      ultimately have "parse_signal ?s = ?v"
        by (intro parse_signal_number)
      then show ?thesis using False by (auto simp: Let_def)
    qed
  qed
  have names: "parse_signal ''TERM'' = SIGTERM" "parse_signal ''SIGTERM'' = SIGTERM"
    "parse_signal ''INT'' = SIGINT" "parse_signal ''SIGINT'' = SIGINT"
    "parse_signal ''HUP'' = SIGHUP" "parse_signal ''SIGHUP'' = SIGHUP"
    "parse_signal ''KILL'' = SIGKILL" "parse_signal ''SIGKILL'' = SIGKILL"
    "parse_signal ''USR1'' = SIGUSR1" "parse_signal ''SIGUSR1'' = SIGUSR1"
    "parse_signal ''USR2'' = SIGUSR2" "parse_signal ''SIGUSR2'' = SIGUSR2"
    by code_simp+
  have other: "parse_signal (ws @ r) = SIGTERM"
    if h: "list_all isspace ws
        \<and> (r = [] \<or> \<not> isspace (hd r) \<and> \<not> isdigit (hd r)
              \<and> (hd r \<in> {CHR ''-'', CHR ''+''} \<longrightarrow> tl r = [] \<or> \<not> isdigit (hd (tl r))))
        \<and> ws @ r \<notin> {''TERM'', ''INT'', ''HUP'', ''KILL'', ''USR1'', ''USR2'',
             ''SIGTERM'', ''SIGINT'', ''SIGHUP'', ''SIGKILL'', ''SIGUSR1'', ''SIGUSR2''}"
  proof -
    have "stoi (ws @ r) = Inl Invalid_argument"
      using h by (intro stoi_no_number) simp_all
    then show ?thesis
      using h by (intro parse_signal_default [of "ws @ r" Invalid_argument]) simp_all
  qed
  show ?thesis
    by (intro conjI impI; (rule names | erule number | erule other))
qed

theorem parse_signal_cases_witness:
  "parse_signal ''9abc'' = 9 \<and> parse_signal '' -5'' = - 5 \<and> parse_signal ''99999999999'' = SIGTERM
   \<and> parse_signal ''TERM'' = SIGTERM \<and> parse_signal ''bogus'' = SIGTERM \<and> parse_signal ''-x'' = SIGTERM"
proof -
  have d: "decimal ''9'' = 9" "decimal ''5'' = 5" "decimal ''99999999999'' = 99999999999"
    by (simp_all add: decimal_def digit_val_def)
  have 1: "parse_signal ''9abc'' = 9"
    using parse_signal_cases [of "[]" "[]" "''9''" "''abc''" "[]"] d
    by (simp add: isdigit_def INT_MIN_def INT_MAX_def)
  have 2: "parse_signal '' -5'' = - 5"
    using parse_signal_cases [of "'' ''" "''-''" "''5''" "[]" "[]"] d
    by (simp add: isdigit_def isspace_def INT_MIN_def INT_MAX_def)
  have 3: "parse_signal ''99999999999'' = SIGTERM"
    using parse_signal_cases [of "[]" "[]" "''99999999999''" "[]" "[]"] d
    by (simp add: isdigit_def INT_MIN_def INT_MAX_def)
  have 4: "parse_signal ''TERM'' = SIGTERM"
    using parse_signal_cases [of "[]" "[]" "[]" "[]" "[]"] by simp
  have 5: "parse_signal ''bogus'' = SIGTERM"
    using parse_signal_cases [of "[]" "[]" "[]" "[]" "''bogus''"]
    by (simp add: isdigit_def isspace_def)
  have 6: "parse_signal ''-x'' = SIGTERM"
    using parse_signal_cases [of "[]" "[]" "[]" "[]" "''-x''"]
    by (simp add: isdigit_def isspace_def)
  show ?thesis
    using 1 2 3 4 5 6 by simp
qed

section \<open>Durations\<close>

lemma parse_duration_eq:
  "parse_duration s t =
     (case parsed_seconds s of
        Returns None \<Rightarrow> Returns (False, t)
      | Returns (Some n) \<Rightarrow> Returns (True, t\<lparr>duration_seconds := n\<rparr>)
      | Throws x \<Rightarrow> Throws x
      | Undefined_behaviour \<Rightarrow> Undefined_behaviour)"
  by (simp add: parse_duration_def parsed_seconds_def
      split: result.split option.split double.split)

text \<open>
  C7. \<open>2m\<close> is 120 seconds, \<open>1.5h\<close> is 5400 and \<open>3d\<close> is 259200, and for \<open>-1s\<close>
  \<open>parse_duration\<close> returns \<^verbatim>\<open>false\<close>, which is its report of a parse error. For
  \<open>bogus\<close> it does not return: \<^verbatim>\<open>std::stod\<close> throws \<^verbatim>\<open>std::invalid_argument\<close> and
  \<open>parse_duration\<close> has no handler for it, unlike \<open>parse_signal\<close> for \<^verbatim>\<open>std::stoi\<close>.
\<close>

theorem parse_duration_bogus_throws:
  "parse_duration ''bogus'' t = Throws Invalid_argument
   \<and> parse_duration ''bogus'' t \<noteq> Returns (False, t)
   \<and> parse_duration ''-1s'' t = Returns (False, t)
   \<and> parse_duration ''2m'' t = Returns (True, t\<lparr>duration_seconds := 120\<rparr>)
   \<and> parse_duration ''1.5h'' t = Returns (True, t\<lparr>duration_seconds := 5400\<rparr>)
   \<and> parse_duration ''3d'' t = Returns (True, t\<lparr>duration_seconds := 259200\<rparr>)"
proof -
  have "parsed_seconds ''2m'' = Returns (Some 120)"
    "parsed_seconds ''1.5h'' = Returns (Some 5400)"
    "parsed_seconds ''3d'' = Returns (Some 259200)"
    "parsed_seconds ''bogus'' = Throws Invalid_argument"
    "parsed_seconds ''-1s'' = Returns None"
    by code_simp+
  then show ?thesis
    by (simp add: parse_duration_eq)
qed

lemma valof_less_0: "(valof m e < 0) = (m < 0)"
  by (simp add: valof_def divide_less_0_iff mult_less_0_iff)

lemma valof_greater:
  "(of_int i < valof m e) = (if 0 \<le> e then i < m * 2 ^ nat e else i * 2 ^ nat (- e) < m)"
proof (cases "0 \<le> e")
  case True
  have "(real_of_int i < of_int (m * 2 ^ nat e)) = (i < m * 2 ^ nat e)"
    by (rule of_int_less_iff)
  then show ?thesis using True by (simp only: valof_def if_True)
next
  case False
  have p: "(0::real) < of_int (2 ^ nat (- e))"
    by simp
  have "(real_of_int i < of_int m / of_int (2 ^ nat (- e)))
      = (real_of_int i * of_int (2 ^ nat (- e)) < of_int m)"
    using p by (rule pos_less_divide_eq)
  also have "\<dots> = (real_of_int (i * 2 ^ nat (- e)) < of_int m)"
    by (simp only: of_int_mult)
  also have "\<dots> = (i * 2 ^ nat (- e) < m)"
    by (rule of_int_less_iff)
  finally show ?thesis using False by (simp only: valof_def if_False)
qed

lemma floor_valof: "\<lfloor>valof m e\<rfloor> = truncate m e"
proof (cases "0 \<le> e")
  case True
  then show ?thesis by (simp only: valof_def truncate_def if_True floor_of_int)
next
  case False
  then show ?thesis by (simp only: valof_def truncate_def if_False floor_divide_of_int_eq)
qed

text \<open>
  C10. For every text whose scaled value is finite, \<open>parse_duration\<close> stores the value
  with its fraction cut off, \<open>\<lfloor>valof m e\<rfloor>\<close>, when the value is between 0 and \<open>INT_MAX\<close>,
  and returns \<^verbatim>\<open>false\<close> otherwise; a value above \<open>INT_MAX\<close>, infinity included, is
  rejected. So \<open>1.5\<close> is 1 second and \<open>0.5s\<close> is 0 seconds.
\<close>

theorem parse_duration_truncates:
  "(s \<noteq> [] \<and> scaled_value s = Returns (Some (Finite m e)) \<longrightarrow>
      parse_duration s t =
        (if 0 \<le> valof m e \<and> valof m e \<le> of_int INT_MAX
         then Returns (True, t\<lparr>duration_seconds := \<lfloor>valof m e\<rfloor>\<rparr>)
         else Returns (False, t)))
   \<and> (s \<noteq> [] \<and> scaled_value s = Returns (Some PInf) \<longrightarrow> parse_duration s t = Returns (False, t))
   \<and> parse_duration ''1.5'' t = Returns (True, t\<lparr>duration_seconds := 1\<rparr>)
   \<and> parse_duration ''0.5s'' t = Returns (True, t\<lparr>duration_seconds := 0\<rparr>)
   \<and> parse_duration ''2147483648'' t = Returns (False, t)"
proof -
  have finite: "parse_duration s t =
        (if 0 \<le> valof m e \<and> valof m e \<le> of_int INT_MAX
         then Returns (True, t\<lparr>duration_seconds := \<lfloor>valof m e\<rfloor>\<rparr>)
         else Returns (False, t))"
    if "s \<noteq> []" "scaled_value s = Returns (Some (Finite m e))"
  proof -
    have "dless0 (Finite m e) = (valof m e < 0)"
      by (simp add: dless0_def valof_less_0)
    moreover have "dgreater (Finite m e) INT_MAX = (of_int INT_MAX < valof m e)"
      by (simp add: dgreater_def valof_greater)
    ultimately show ?thesis
      using that by (auto simp: parse_duration_def floor_valof)
  qed
  have infinite: "parse_duration s t = Returns (False, t)"
    if "s \<noteq> []" "scaled_value s = Returns (Some PInf)"
    using that by (simp add: parse_duration_def dgreater_def)
  have "parsed_seconds ''1.5'' = Returns (Some 1)"
    "parsed_seconds ''0.5s'' = Returns (Some 0)"
    "parsed_seconds ''2147483648'' = Returns None"
    by code_simp+
  then show ?thesis
    using finite infinite by (simp add: parse_duration_eq)
qed

theorem parse_duration_truncates_witness:
  "parse_duration ''90.5s'' Timeout = Returns (True, Timeout\<lparr>duration_seconds := 90\<rparr>)"
proof -
  have 1: "scaled_value ''90.5s'' = Returns (Some (Finite 6368371348078592 (- 46)))"
    by code_simp
  have 2: "valof 6368371348078592 (- 46) = 181 / 2"
    by (simp add: valof_def)
  show ?thesis
    using parse_duration_truncates [of "''90.5s''" 6368371348078592 "- 46" Timeout] 1 2
    by (simp add: INT_MAX_def)
qed

end
